theory Spec2Isabelle
  imports Complex_Main "HOL-Library.Char_ord" "HOL-Library.List_Lexorder"
begin

section \<open>Warming-threshold crossing years of the CMIP6 notebook\<close>

text \<open>
  The development follows the cells of
  \<^verbatim>\<open>cmip6_historical_ssp_gmtas_calculate_warming_thresholds_timing.ipynb\<close>
  that compute, for every climate model and warming threshold, the first year at which the
  centred rolling mean of the global-mean temperature anomaly reaches the threshold, that
  export the years as a table and that summarise them by median and percentiles.

  Temperatures are 64-bit floats in the notebook. A temperature is a \<^typ>\<open>real\<close> here, and
  comparisons are the comparisons of these numbers. The mean of a window is not computed
  here: it is the double that the array library returns, which is a parameter of the
  development, so that nothing depends on how the library rounds. Every year of a series
  carries a number; the not-a-number value of a smoothed entry is \<^const>\<open>None\<close>. Years are
  Python integers. An exception raised by a cell is a value of the type \<open>error\<close>.
\<close>

subsection \<open>Data\<close>

datatype error =
    WindowNotPositive   \<comment> \<open>\<^verbatim>\<open>ValueError\<close>: \<^verbatim>\<open>rolling\<close> with a window that is not positive\<close>
  | WindowTooLong       \<comment> \<open>\<^verbatim>\<open>ValueError\<close>: a window longer than the array it moves over\<close>
  | EmptyReduction      \<comment> \<open>\<^verbatim>\<open>ValueError\<close>: \<^verbatim>\<open>min\<close> of a zero-size array\<close>
  | KeyError            \<comment> \<open>a name that is not in \<^verbatim>\<open>vars()\<close>\<close>
  | ShapeMismatch       \<comment> \<open>\<^verbatim>\<open>ValueError\<close>: \<^verbatim>\<open>vstack\<close> or \<^verbatim>\<open>DataFrame\<close> on shapes that disagree\<close>
  | IndexError          \<comment> \<open>\<^verbatim>\<open>np.quantile\<close> of an array with no entry\<close>

type_synonym AnomalySeries = "(int \<times> real) list"
  \<comment> \<open>one model of \<^verbatim>\<open>cmip6_gmtm_anom\<close>: the \<^verbatim>\<open>year\<close> coordinate with the value at each position\<close>

type_synonym SmoothedSeries = "(int \<times> real option) list"

text \<open>
  A threshold is a Python number, an \<^verbatim>\<open>int\<close> or a \<^verbatim>\<open>float\<close>: \<^verbatim>\<open>temps\<close> mixes the two,
  and \<^verbatim>\<open>str\<close> tells them apart (\<^verbatim>\<open>str(2)\<close> is \<^verbatim>\<open>'2'\<close>, \<^verbatim>\<open>str(2.0)\<close> is \<^verbatim>\<open>'2.0'\<close>).
\<close>

datatype number = PyInt int | PyFloat real

fun value_of :: "number \<Rightarrow> real" where
  "value_of (PyInt n) = real_of_int n"
| "value_of (PyFloat x) = x"

subsection \<open>The array library\<close>

text \<open>
  The rolling mean is computed by the array library, in one of two ways. Where the package
  \<^verbatim>\<open>bottleneck\<close> is installed, its moving mean runs over the values; otherwise the library
  reduces its own view of the windows. Whichever runs returns, for a window full of
  numbers, a double near their mean: \<open>fmean before w\<close> is that double for a window that
  holds the numbers \<open>w\<close> and comes after the numbers \<open>before\<close> in the series. Only the moving
  mean, which keeps a running sum, depends on \<open>before\<close>.
\<close>

record library =
  bottleneck :: bool
  fmean :: "real list \<Rightarrow> real list \<Rightarrow> real"

subsection \<open>The centred rolling mean\<close>

text \<open>
  \<^verbatim>\<open>smoothed = annual.rolling(year=rolling_ave_window, center=True).mean()\<close>

  A window that is not positive is refused. The library's own reduction pads the values
  with not-a-number, \<open>window // 2\<close> entries in front and \<open>window - 1 - window // 2\<close> behind,
  and views the padded array through a sliding window, which raises when the padded array
  is shorter than one window. The moving mean of \<^verbatim>\<open>bottleneck\<close> is given the values padded
  behind only, and raises when that array is shorter than one window. The entry of a
  position is then the mean of the \<open>window\<close> consecutive padded entries that start there,
  kept where at least \<open>min_periods\<close> of them are numbers; \<open>min_periods\<close> is the window where
  the call does not give it, as here. The moving mean yields the same entries: its window
  ends \<open>(window - 1) // 2\<close> positions after the position, and the positions in front of
  the series count as not-a-number.
\<close>

definition pad :: "nat \<Rightarrow> real list \<Rightarrow> real option list" where
  "pad W vals = replicate (W div 2) None @ map Some vals @ replicate (W - 1 - W div 2) None"

definition padded_length :: "library \<Rightarrow> nat \<Rightarrow> nat \<Rightarrow> nat" where
  "padded_length lib W N = (if bottleneck lib then N + (W - 1) div 2 else N + (W - 1))"

definition window_at :: "nat \<Rightarrow> real option list \<Rightarrow> nat \<Rightarrow> real option list" where
  "window_at W padded i = take W (drop i padded)"

definition count_valid :: "real option list \<Rightarrow> nat" where
  "count_valid w = length (filter (\<lambda>v. v \<noteq> None) w)"

definition numbers :: "real option list \<Rightarrow> real list" where
  "numbers w = concat (map (\<lambda>v. case v of None \<Rightarrow> [] | Some x \<Rightarrow> [x]) w)"

definition window_mean :: "library \<Rightarrow> nat \<Rightarrow> real option list \<Rightarrow> real option list \<Rightarrow> real option" where
  "window_mean lib min_periods front w =
     (if min_periods \<le> count_valid w \<and> 0 < count_valid w
      then Some (fmean lib (numbers front) (numbers w)) else None)"

definition rolling_mean :: "library \<Rightarrow> AnomalySeries \<Rightarrow> int \<Rightarrow> error + SmoothedSeries" where
  "rolling_mean lib annual window =
     (if window \<le> 0 then Inl WindowNotPositive
      else let W = nat window; padded = pad W (map snd annual)
           in if padded_length lib W (length annual) < W then Inl WindowTooLong
              else Inr (map (\<lambda>(i, (year, v)).
                              (year, window_mean lib W (take i padded) (window_at W padded i)))
                            (enumerate 0 annual)))"

subsection \<open>The first year at or above a threshold\<close>

text \<open>
  \<^verbatim>\<open>year_temp_smoothed = (smoothed.year.where(smoothed >= temp, drop=True)).year.min().item()\<close>

  A comparison with not-a-number is false. \<^verbatim>\<open>where(..., drop=True)\<close> keeps the positions
  where the condition holds, \<^verbatim>\<open>.year\<close> reads their years, and \<^verbatim>\<open>min\<close> of no years at
  all raises.
\<close>

definition ge_threshold :: "real option \<Rightarrow> real \<Rightarrow> bool" where
  "ge_threshold v temp = (case v of None \<Rightarrow> False | Some x \<Rightarrow> temp \<le> x)"

definition where_drop :: "SmoothedSeries \<Rightarrow> real \<Rightarrow> int list" where
  "where_drop smoothed temp = map fst (filter (\<lambda>(year, v). ge_threshold v temp) smoothed)"

definition year_min :: "int list \<Rightarrow> error + int" where
  "year_min ys = (case ys of [] \<Rightarrow> Inl EmptyReduction | y # rest \<Rightarrow> Inr (fold min rest y))"

definition first_crossing_year :: "SmoothedSeries \<Rightarrow> real \<Rightarrow> error + int" where
  "first_crossing_year smoothed temp = year_min (where_drop smoothed temp)"

subsection \<open>The accumulation loop\<close>

text \<open>
  \<^verbatim>\<open>
  rolling_ave_window = 20
  temps = [1, 1.5, 2, 2.5, 3]
  for ti, temp in enumerate(temps):
      vars()['firstyear_rolling_' + str(temp) + 'C'] = []
      for mi, model in enumerate(cmip6_models):
          annual = cmip6_gmtm_anom.sel(model=mi)
          smoothed = annual.rolling(year=rolling_ave_window, center=True).mean()
          year_temp_smoothed = (smoothed.year.where(smoothed >= temp, drop=True)).year.min().item()
          vars()['firstyear_rolling_' + str(temp) + 'C'].append(year_temp_smoothed)
  \<close>
  The cell runs at module level, where \<^verbatim>\<open>vars()\<close> is the dictionary of global names, so
  the lists outlive the cell. The state is the part of that dictionary the cell writes. A
  list is stored under the name \<^verbatim>\<open>'firstyear_rolling_' + str(temp) + 'C'\<close>; two numbers
  give the same name exactly when they are the same number of the same Python type, so the
  number stands for the name. An ensemble is the list \<^verbatim>\<open>cmip6_models\<close> of names, each with
  its row of \<^verbatim>\<open>cmip6_gmtm_anom\<close>. An exception ends the run and leaves the dictionary as
  it is at that moment.
\<close>

definition rolling_ave_window :: int where
  "rolling_ave_window = 20"

definition temps :: "number list" where
  "temps = [PyInt 1, PyFloat (3 / 2), PyInt 2, PyFloat (5 / 2), PyInt 3]"

type_synonym globals = "number \<rightharpoonup> int list"

type_synonym Ensemble = "(string \<times> AnomalySeries) list"

definition crossing_year :: "library \<Rightarrow> AnomalySeries \<Rightarrow> int \<Rightarrow> real \<Rightarrow> error + int" where
  "crossing_year lib annual window temp =
     (case rolling_mean lib annual window of
        Inl e \<Rightarrow> Inl e
      | Inr smoothed \<Rightarrow> first_crossing_year smoothed temp)"

fun models_loop ::
  "library \<Rightarrow> int \<Rightarrow> number \<Rightarrow> AnomalySeries list \<Rightarrow> globals \<Rightarrow> error option \<times> globals" where
  "models_loop lib window temp [] g = (None, g)"
| "models_loop lib window temp (annual # rest) g =
     (case crossing_year lib annual window (value_of temp) of
        Inl e \<Rightarrow> (Some e, g)
      | Inr year_temp_smoothed \<Rightarrow>
          (case g temp of
             None \<Rightarrow> (Some KeyError, g)
           | Some firstyear \<Rightarrow>
               models_loop lib window temp rest (g(temp \<mapsto> firstyear @ [year_temp_smoothed]))))"

fun temps_loop ::
  "library \<Rightarrow> int \<Rightarrow> number list \<Rightarrow> AnomalySeries list \<Rightarrow> globals \<Rightarrow> error option \<times> globals" where
  "temps_loop lib window [] models g = (None, g)"
| "temps_loop lib window (temp # rest) models g =
     (case models_loop lib window temp models (g(temp \<mapsto> [])) of
        (Some e, g') \<Rightarrow> (Some e, g')
      | (None, g') \<Rightarrow> temps_loop lib window rest models g')"

definition analyze ::
  "library \<Rightarrow> Ensemble \<Rightarrow> number list \<Rightarrow> int \<Rightarrow> globals \<Rightarrow> error option \<times> globals" where
  "analyze lib ensemble ts window g = temps_loop lib window ts (map snd ensemble) g"

subsection \<open>The exported table\<close>

text \<open>
  \<^verbatim>\<open>
  all_temps_rolling = np.vstack((
      np.array(vars()['firstyear_rolling_'+str(1)+'C']),
      np.array(vars()['firstyear_rolling_'+str(1.5)+'C']),
      np.array(vars()['firstyear_rolling_'+str(2)+'C']),
      np.array(vars()['firstyear_rolling_'+str(2.5)+'C']),
      np.array(vars()['firstyear_rolling_'+str(3)+'C']),
  )).T
  cmip6_models_warminglevels_df_rolling = pd.DataFrame(data=(all_temps_rolling),
      index=cmip6_models, columns=temps)
  cmip6_models_warminglevels_df_rolling = cmip6_models_warminglevels_df_rolling.sort_index()
  \<close>
  The five lists are read under the names the cell spells out, whatever \<^verbatim>\<open>temps\<close> holds.
  Stacking needs lists of one length, and the data frame needs as many rows as names and as
  many columns as thresholds. \<^verbatim>\<open>sort_index\<close> orders the rows by name, strings compared
  character by character.
\<close>

record DataFrame =
  columns :: "number list"
  rows :: "(string \<times> int list) list"

fun lookup_all :: "globals \<Rightarrow> number list \<Rightarrow> error + int list list" where
  "lookup_all g [] = Inr []"
| "lookup_all g (k # ks) =
     (case g k of
        None \<Rightarrow> Inl KeyError
      | Some l \<Rightarrow> (case lookup_all g ks of Inl e \<Rightarrow> Inl e | Inr ls \<Rightarrow> Inr (l # ls)))"

definition vstack_T :: "int list list \<Rightarrow> error + int list list" where
  "vstack_T arrays =
     (if list_all (\<lambda>a. length a = length (hd arrays)) arrays
      then Inr (map (\<lambda>m. map (\<lambda>a. a ! m) arrays) [0..<length (hd arrays)])
      else Inl ShapeMismatch)"

definition sort_index :: "DataFrame \<Rightarrow> DataFrame" where
  "sort_index df = df\<lparr>rows := sort_key fst (rows df)\<rparr>"

definition export_table :: "string list \<Rightarrow> number list \<Rightarrow> globals \<Rightarrow> error + DataFrame" where
  "export_table cmip6_models ts g =
     (case lookup_all g [PyInt 1, PyFloat (3 / 2), PyInt 2, PyFloat (5 / 2), PyInt 3] of
        Inl e \<Rightarrow> Inl e
      | Inr arrays \<Rightarrow>
          (case vstack_T arrays of
             Inl e \<Rightarrow> Inl e
           | Inr all_temps_rolling \<Rightarrow>
               if length all_temps_rolling = length cmip6_models \<and> length ts = length arrays
               then Inr (sort_index \<lparr>columns = ts, rows = zip cmip6_models all_temps_rolling\<rparr>)
               else Inl ShapeMismatch))"

text \<open>The two cells one after the other, as the notebook runs them.\<close>

definition notebook_table ::
  "library \<Rightarrow> Ensemble \<Rightarrow> number list \<Rightarrow> int \<Rightarrow> globals \<Rightarrow> error + DataFrame" where
  "notebook_table lib ensemble ts window g =
     (case analyze lib ensemble ts window g of
        (Some e, g') \<Rightarrow> Inl e
      | (None, g') \<Rightarrow> export_table (map fst ensemble) ts g')"

subsection \<open>Median and percentiles of the ensemble\<close>

text \<open>
  \<^verbatim>\<open>
  temp = 2
  print('Rolling method median:',np.median(np.array(vars()['firstyear_rolling_'+str(temp)+'C'])))
  print('Rolling method 5th percentile:',np.quantile(np.array(vars()['firstyear_rolling_'+str(temp)+'C']),0.05))
  print('Rolling method 95th percentile:',np.quantile(np.array(vars()['firstyear_rolling_'+str(temp)+'C']),0.95))
  \<close>
  The median of a sorted array is its middle entry, or the mean of the two middle entries;
  of an array with no entry it is not-a-number, which is \<^const>\<open>None\<close>. The quantile
  interpolates linearly between the two sorted entries around the position \<open>(n - 1) * q\<close>,
  and raises on an array with no entry, which ends the cell. The interpolation is written
  in exact arithmetic; the double that is printed is its value rounded.
\<close>

definition np_median :: "int list \<Rightarrow> real option" where
  "np_median a =
     (let s = sort a; n = length s
      in if n = 0 then None
         else if odd n then Some (real_of_int (s ! (n div 2)))
         else Some ((real_of_int (s ! (n div 2 - 1)) + real_of_int (s ! (n div 2))) / 2))"

definition interpolate :: "int list \<Rightarrow> real \<Rightarrow> real" where
  "interpolate a q =
     (let s = sort a; n = length s;
          h = real (n - 1) * q;
          j = nat \<lfloor>h\<rfloor>;
          lo = real_of_int (s ! j);
          hi = real_of_int (s ! min (j + 1) (n - 1))
      in lo + (h - real j) * (hi - lo))"

definition np_quantile :: "int list \<Rightarrow> real \<Rightarrow> error + real" where
  "np_quantile a q = (if a = [] then Inl IndexError else Inr (interpolate a q))"

definition statistics :: "int list \<Rightarrow> error + real option \<times> real \<times> real" where
  "statistics firstyear =
     (let median = np_median firstyear
      in case np_quantile firstyear (5 / 100) of
           Inl e \<Rightarrow> Inl e
         | Inr p5 \<Rightarrow>
             (case np_quantile firstyear (95 / 100) of
                Inl e \<Rightarrow> Inl e
              | Inr p95 \<Rightarrow> Inr (median, p5, p95)))"

definition summary :: "globals \<Rightarrow> number \<Rightarrow> error + real option \<times> real \<times> real" where
  "summary g temp =
     (case g temp of
        None \<Rightarrow> Inl KeyError
      | Some firstyear \<Rightarrow> statistics firstyear)"

definition notebook_summary ::
  "library \<Rightarrow> Ensemble \<Rightarrow> number list \<Rightarrow> int \<Rightarrow> number \<Rightarrow> globals \<Rightarrow>
     error + real option \<times> real \<times> real" where
  "notebook_summary lib ensemble ts window temp g =
     (case analyze lib ensemble ts window g of
        (Some e, g') \<Rightarrow> Inl e
      | (None, g') \<Rightarrow> summary g' temp)"

subsection \<open>Windows, candidates and valid years\<close>

text \<open>
  The window of position \<open>i\<close> as the rolling mean places it: from \<open>W div 2\<close> positions
  before \<open>i\<close> up to \<open>(W - 1) div 2\<close> positions after it. \<open>window_values\<close> are the values it
  covers, \<open>smoothed_value\<close> is the double the library returns for them, and \<open>centred_mean\<close>
  is their arithmetic mean.
\<close>

definition in_bounds :: "nat \<Rightarrow> nat \<Rightarrow> nat \<Rightarrow> bool" where
  "in_bounds W N i = (W div 2 \<le> i \<and> i + (W - 1) div 2 < N)"

definition window_values :: "nat \<Rightarrow> real list \<Rightarrow> nat \<Rightarrow> real list" where
  "window_values W vals i = take W (drop (i - W div 2) vals)"

definition smoothed_value :: "library \<Rightarrow> nat \<Rightarrow> real list \<Rightarrow> nat \<Rightarrow> real" where
  "smoothed_value lib W vals i = fmean lib (take (i - W div 2) vals) (window_values W vals i)"


definition smoothed_entry :: "library \<Rightarrow> AnomalySeries \<Rightarrow> nat \<Rightarrow> nat \<Rightarrow> int \<times> real option" where
  "smoothed_entry lib annual W i =
     (fst (annual ! i),
      if in_bounds W (length annual) i then Some (smoothed_value lib W (map snd annual) i)
      else None)"

text \<open>
  The series on which the rolling mean raises: the empty one, and with \<^verbatim>\<open>bottleneck\<close>
  every series of at most \<open>W div 2\<close> years.
\<close>

definition too_short :: "library \<Rightarrow> nat \<Rightarrow> nat \<Rightarrow> bool" where
  "too_short lib W N = (if bottleneck lib then N \<le> W div 2 else N = 0)"





text \<open>
  A year is a candidate for threshold \<open>t\<close> when it labels a position whose window is in
  bounds and whose smoothed value is at least \<open>t\<close>.
\<close>

definition candidate :: "library \<Rightarrow> AnomalySeries \<Rightarrow> nat \<Rightarrow> real \<Rightarrow> int \<Rightarrow> bool" where
  "candidate lib annual W t y =
     (\<exists>i<length annual. fst (annual ! i) = y \<and> in_bounds W (length annual) i \<and>
        t \<le> smoothed_value lib W (map snd annual) i)"

text \<open>The crossing years a summary that skips the models without one would use.\<close>

definition valid_years :: "(error + int) list \<Rightarrow> int list" where
  "valid_years rs = concat (map (\<lambda>r. case r of Inl e \<Rightarrow> [] | Inr y \<Rightarrow> [y]) rs)"

subsection \<open>The accumulation loop as a function of its inputs\<close>

text \<open>
  The outcomes of one threshold over the models in order, the years before the first
  exception among them, and that exception. \<open>written\<close> collects what a run stores in the
  dictionary, with the exception that ends it.
\<close>

fun prefix_years :: "(error + int) list \<Rightarrow> int list" where
  "prefix_years [] = []"
| "prefix_years (Inl e # rs) = []"
| "prefix_years (Inr y # rs) = y # prefix_years rs"

fun first_error :: "(error + int) list \<Rightarrow> error option" where
  "first_error [] = None"
| "first_error (Inl e # rs) = Some e"
| "first_error (Inr y # rs) = first_error rs"

definition outcomes :: "library \<Rightarrow> int \<Rightarrow> number \<Rightarrow> AnomalySeries list \<Rightarrow> (error + int) list" where
  "outcomes lib window temp models =
     map (\<lambda>annual. crossing_year lib annual window (value_of temp)) models"

fun written ::
  "library \<Rightarrow> int \<Rightarrow> number list \<Rightarrow> AnomalySeries list \<Rightarrow> error option \<times> globals" where
  "written lib window [] models = (None, Map.empty)"
| "written lib window (temp # rest) models =
     (case first_error (outcomes lib window temp models) of
        Some e \<Rightarrow> (Some e, [temp \<mapsto> prefix_years (outcomes lib window temp models)])
      | None \<Rightarrow> (fst (written lib window rest models),
                 [temp \<mapsto> prefix_years (outcomes lib window temp models)] ++
                 snd (written lib window rest models)))"

definition all_reached :: "library \<Rightarrow> Ensemble \<Rightarrow> number list \<Rightarrow> int \<Rightarrow> bool" where
  "all_reached lib ensemble ts window =
     list_all (\<lambda>t. list_all (\<lambda>(m, annual).
        \<not> isl (crossing_year lib annual window (value_of t))) ensemble) ts"

definition table_row :: "library \<Rightarrow> AnomalySeries \<Rightarrow> number list \<Rightarrow> int \<Rightarrow> int list" where
  "table_row lib annual ts window =
     map (\<lambda>t. projr (crossing_year lib annual window (value_of t))) ts"

subsection \<open>Examples\<close>

text \<open>
  On the series below every sum and every quotient of a window is a double, so the two
  ways of the library return the arithmetic mean itself: \<open>own_windows\<close> is the library's
  own reduction and \<open>moving_mean\<close> the one of \<^verbatim>\<open>bottleneck\<close>, both on such series.
\<close>

definition own_windows :: library where
  "own_windows = \<lparr>bottleneck = False, fmean = (\<lambda>before w. sum_list w / real (length w))\<rparr>"

definition moving_mean :: library where
  "moving_mean = \<lparr>bottleneck = True, fmean = (\<lambda>before w. sum_list w / real (length w))\<rparr>"

definition rising :: AnomalySeries where
  "rising = [(2000, 0), (2001, 1), (2002, 2), (2003, 3)]"

definition flat :: AnomalySeries where
  "flat = [(2000, 1 / 2), (2001, 1 / 2)]"


definition unordered :: AnomalySeries where
  "unordered = [(2002, 2), (2000, 2), (2001, 2)]"

definition warm :: AnomalySeries where
  "warm = [(2000, 1), (2001, 2), (2002, 3), (2003, 4)]"

definition hot :: AnomalySeries where
  "hot = [(2000, 2), (2001, 3), (2002, 4), (2003, 5)]"

definition ensemble_reached :: Ensemble where
  "ensemble_reached = [(''MIROC6'', warm), (''CanESM5'', hot)]"

definition ensemble_unreached :: Ensemble where
  "ensemble_unreached = [(''MIROC6'', rising), (''CanESM5'', flat)]"

section \<open>The rolling mean in closed form\<close>

text \<open>
  The padded windows of \<^const>\<open>rolling_mean\<close> are traced once: a window that is in bounds
  holds exactly the values of the series it covers, after exactly the values in front of
  them, and any other window holds a padded entry, so that fewer than \<open>min_periods\<close> of
  its entries are numbers. The array that is too short for one window is the one of
  \<^const>\<open>too_short\<close>.
\<close>

lemma length_pad: "length (pad W vals) = W div 2 + length vals + (W - 1 - W div 2)"
  by (simp add: pad_def)

lemma count_valid_Some: "count_valid (map Some xs) = length xs"
  by (induction xs) (simp_all add: count_valid_def)

lemma numbers_Some: "numbers (map Some xs) = xs"
  by (induction xs) (simp_all add: numbers_def)

lemma numbers_None: "numbers (replicate n None) = []"
  by (induction n) (simp_all add: numbers_def)

lemma numbers_append: "numbers (xs @ ys) = numbers xs @ numbers ys"
  by (simp add: numbers_def)

lemma count_valid_None: "None \<in> set w \<Longrightarrow> count_valid w < length w"
  unfolding count_valid_def by (rule length_filter_less[of None]) simp_all

lemma in_boundsD:
  assumes "in_bounds W N i" "0 < W"
  shows "W div 2 \<le> i" "i - W div 2 + W \<le> N"
proof -
  have e: "W div 2 + (W - 1) div 2 = W - 1" using assms(2) by presburger
  show "W div 2 \<le> i" using assms by (simp add: in_bounds_def)
  then show "i - W div 2 + W \<le> N" using assms e by (simp add: in_bounds_def)
qed

lemma window_in:
  assumes "in_bounds W (length vals) i" "0 < W"
  shows "window_at W (pad W vals) i = map Some (window_values W vals i)"
  using in_boundsD[OF assms]
  by (simp add: window_at_def window_values_def pad_def take_map drop_map)

lemma front_in:
  assumes "in_bounds W (length vals) i" "0 < W"
  shows "numbers (take i (pad W vals)) = take (i - W div 2) vals"
proof -
  from in_boundsD[OF assms] have a: "W div 2 \<le> i" and b: "i - W div 2 \<le> length vals"
    by simp_all
  have "take i (pad W vals) = replicate (W div 2) None @ map Some (take (i - W div 2) vals)"
    using a b by (simp add: pad_def take_map min_def)
  then show ?thesis by (simp add: numbers_append numbers_None numbers_Some)
qed

lemma window_in_length:
  assumes "in_bounds W (length vals) i" "0 < W"
  shows "length (window_values W vals i) = W"
  using in_boundsD[OF assms] by (simp add: window_values_def)

lemma pad_nth_back:
  assumes "W div 2 + length vals \<le> j" "j < length (pad W vals)"
  shows "pad W vals ! j = None"
proof -
  let ?a = "replicate (W div 2) (None :: real option) @ map Some vals"
  have "pad W vals = ?a @ replicate (W - 1 - W div 2) None" by (simp add: pad_def)
  moreover have la: "length ?a = W div 2 + length vals" by simp
  ultimately have "pad W vals ! j = replicate (W - 1 - W div 2) None ! (j - length ?a)"
    using assms(1) by (metis nth_append not_less)
  moreover have "j - length ?a < W - 1 - W div 2" using assms la by (simp add: length_pad)
  ultimately show ?thesis by simp
qed

lemma window_out:
  assumes "\<not> in_bounds W (length vals) i" "0 < W" "i < length vals"
  shows "None \<in> set (window_at W (pad W vals) i)" "length (window_at W (pad W vals) i) = W"
proof -
  let ?p = "pad W vals"
  have len: "length ?p = length vals + W - 1" using assms(2)
    by (simp add: length_pad)
  show l: "length (window_at W ?p i) = W" using len assms by (simp add: window_at_def)
  have nth: "\<And>k. k < W \<Longrightarrow> window_at W ?p i ! k = ?p ! (i + k)"
    using len assms by (simp add: window_at_def)
  consider "i < W div 2" | "length vals \<le> i + (W - 1) div 2" using assms(1)
    unfolding in_bounds_def by linarith
  then show "None \<in> set (window_at W ?p i)"
  proof cases
    case 1
    then have "?p ! (i + 0) = None" by (simp add: pad_def nth_append)
    with nth[of 0] assms(2) l show ?thesis by (metis add.right_neutral nth_mem)
  next
    case 2
    have e: "W div 2 + (W - 1) div 2 = W - 1" using assms(2) by presburger
    have "?p ! (i + (W - 1)) = None" using 2 assms e len
      by (intro pad_nth_back) simp_all
    with nth[of "W - 1"] assms(2) l show ?thesis by (metis diff_less nth_mem zero_less_one)
  qed
qed

lemma window_mean_pad:
  assumes "0 < W" "i < length vals"
  shows "window_mean lib W (take i (pad W vals)) (window_at W (pad W vals) i) =
         (if in_bounds W (length vals) i then Some (smoothed_value lib W vals i) else None)"
proof (cases "in_bounds W (length vals) i")
  case True
  then show ?thesis using assms window_in_length[OF True assms(1)]
    by (simp add: window_in front_in window_mean_def count_valid_Some numbers_Some
        smoothed_value_def)
next
  case False
  from window_out[OF False assms] have "count_valid (window_at W (pad W vals) i) < W"
    using count_valid_None by fastforce
  then show ?thesis using False by (simp add: window_mean_def)
qed

lemma too_short_iff:
  assumes "0 < W"
  shows "padded_length lib W N < W \<longleftrightarrow> too_short lib W N"
proof -
  have e: "W div 2 + (W - 1) div 2 = W - 1" using assms by presburger
  show ?thesis using assms e unfolding padded_length_def too_short_def
    by (cases "bottleneck lib") auto
qed


lemma rolling_mean_eq:
  assumes "0 < window"
  shows "rolling_mean lib annual window =
         (if too_short lib (nat window) (length annual) then Inl WindowTooLong
          else Inr (map (smoothed_entry lib annual (nat window)) [0..<length annual]))"
proof -
  let ?W = "nat window"
  let ?p = "pad ?W (map snd annual)"
  let ?f = "\<lambda>(i, (year, v)). (year, window_mean lib ?W (take i ?p) (window_at ?W ?p i))"
  have "map ?f (enumerate 0 annual) = map (smoothed_entry lib annual ?W) [0..<length annual]"
  proof (rule nth_equalityI)
    fix i assume "i < length (map ?f (enumerate 0 annual))"
    then have i: "i < length annual" by simp
    have "window_mean lib ?W (take i ?p) (window_at ?W ?p i) =
        (if in_bounds ?W (length annual) i
         then Some (smoothed_value lib ?W (map snd annual) i) else None)"
      using window_mean_pad[of ?W i "map snd annual" lib] assms i by simp
    then show "map ?f (enumerate 0 annual) ! i
        = map (smoothed_entry lib annual ?W) [0..<length annual] ! i"
      using i by (simp add: nth_enumerate_eq case_prod_beta smoothed_entry_def)
  qed simp
  moreover have "padded_length lib ?W (length annual) < ?W \<longleftrightarrow> too_short lib ?W (length annual)"
    using assms by (intro too_short_iff) simp
  ultimately show ?thesis using assms by (simp add: rolling_mean_def Let_def)
qed

lemma rolling_mean_Inr:
  assumes "rolling_mean lib annual window = Inr smoothed"
  shows "0 < window" "\<not> too_short lib (nat window) (length annual)"
    "smoothed = map (smoothed_entry lib annual (nat window)) [0..<length annual]"
proof -
  show w: "0 < window" using assms by (auto simp: rolling_mean_def split: if_splits)
  from rolling_mean_eq[OF w, of lib annual] assms
  show "\<not> too_short lib (nat window) (length annual)"
    "smoothed = map (smoothed_entry lib annual (nat window)) [0..<length annual]"
    by (auto split: if_splits)
qed

lemma map_fst_smoothed:
  "map fst (map (smoothed_entry lib annual W) [0..<length annual]) = map fst annual"
  by (rule nth_equalityI) (simp_all add: smoothed_entry_def)

section \<open>The minimum of the qualifying years\<close>

lemma fold_min_Min: "fold min rest (y::int) = Min (set (y # rest))"
  by (simp only: Min.set_eq_fold)

lemma year_min_Inr: "year_min ys = Inr y \<longleftrightarrow> ys \<noteq> [] \<and> y = Min (set ys)"
  by (cases ys) (auto simp: year_min_def fold_min_Min simp del: set_simps)

lemma year_min_Inl: "year_min ys = Inl e \<longleftrightarrow> ys = [] \<and> e = EmptyReduction"
  by (cases ys) (auto simp: year_min_def)

lemma set_where_drop:
  "set (where_drop smoothed temp) = {y. \<exists>v. (y, Some v) \<in> set smoothed \<and> temp \<le> v}"
  by (auto simp: where_drop_def ge_threshold_def image_iff split: option.splits) force

lemma set_smoothed:
  "(y, Some v) \<in> set (map (smoothed_entry lib annual W) [0..<length annual]) \<longleftrightarrow>
   (\<exists>i<length annual. fst (annual ! i) = y \<and> in_bounds W (length annual) i \<and>
        v = smoothed_value lib W (map snd annual) i)"
  by (auto simp: smoothed_entry_def image_iff split: if_splits)

lemma set_where_drop_rolling:
  assumes "rolling_mean lib annual window = Inr smoothed"
  shows "set (where_drop smoothed t) = {y. candidate lib annual (nat window) t y}"
proof -
  have sm: "smoothed = map (smoothed_entry lib annual (nat window)) [0..<length annual]"
    by (rule rolling_mean_Inr(3)[OF assms])
  show ?thesis unfolding set_where_drop sm set_smoothed candidate_def by blast
qed

lemma crossing_year_Inr:
  "crossing_year lib annual window t = Inr y \<longleftrightarrow>
   0 < window \<and> \<not> too_short lib (nat window) (length annual) \<and>
   candidate lib annual (nat window) t y \<and>
   (\<forall>y'. candidate lib annual (nat window) t y' \<longrightarrow> y \<le> y')"
proof (cases "0 < window \<and> \<not> too_short lib (nat window) (length annual)")
  case False
  then show ?thesis
    by (cases "0 < window") (auto simp: crossing_year_def rolling_mean_eq, simp add: rolling_mean_def)
next
  case True
  let ?sm = "map (smoothed_entry lib annual (nat window)) [0..<length annual]"
  have r: "rolling_mean lib annual window = Inr ?sm" using True by (simp add: rolling_mean_eq)
  have s: "set (where_drop ?sm t) = {y. candidate lib annual (nat window) t y}"
    by (rule set_where_drop_rolling[OF r])
  have c: "crossing_year lib annual window t = year_min (where_drop ?sm t)"
    by (simp add: crossing_year_def r first_crossing_year_def)
  show ?thesis
  proof
    assume "crossing_year lib annual window t = Inr y"
    then have ne: "where_drop ?sm t \<noteq> []" and y: "y = Min (set (where_drop ?sm t))"
      unfolding c year_min_Inr by simp_all
    have "y \<in> set (where_drop ?sm t)" unfolding y using ne by (intro Min_in) simp_all
    moreover have "\<forall>y'\<in>set (where_drop ?sm t). y \<le> y'" unfolding y by simp
    ultimately show "0 < window \<and> \<not> too_short lib (nat window) (length annual) \<and>
        candidate lib annual (nat window) t y \<and>
        (\<forall>y'. candidate lib annual (nat window) t y' \<longrightarrow> y \<le> y')"
      using True unfolding s by blast
  next
    assume a: "0 < window \<and> \<not> too_short lib (nat window) (length annual) \<and>
        candidate lib annual (nat window) t y \<and>
        (\<forall>y'. candidate lib annual (nat window) t y' \<longrightarrow> y \<le> y')"
    then have in_s: "y \<in> set (where_drop ?sm t)" and least: "\<forall>y'\<in>set (where_drop ?sm t). y \<le> y'"
      unfolding s by simp_all
    then have "Min (set (where_drop ?sm t)) = y" by (intro Min_eqI) simp_all
    moreover have "where_drop ?sm t \<noteq> []" using in_s by auto
    ultimately show "crossing_year lib annual window t = Inr y" unfolding c year_min_Inr by simp
  qed
qed

lemma crossing_year_Inl:
  "crossing_year lib annual window t = Inl e \<longleftrightarrow>
   (if window \<le> 0 then e = WindowNotPositive
    else if too_short lib (nat window) (length annual) then e = WindowTooLong
    else e = EmptyReduction \<and> (\<forall>y. \<not> candidate lib annual (nat window) t y))"
proof (cases "0 < window \<and> \<not> too_short lib (nat window) (length annual)")
  case False
  then show ?thesis
    by (cases "0 < window") (auto simp: crossing_year_def rolling_mean_eq, auto simp: rolling_mean_def)
next
  case True
  let ?sm = "map (smoothed_entry lib annual (nat window)) [0..<length annual]"
  have r: "rolling_mean lib annual window = Inr ?sm" using True by (simp add: rolling_mean_eq)
  have s: "set (where_drop ?sm t) = {y. candidate lib annual (nat window) t y}"
    by (rule set_where_drop_rolling[OF r])
  have c: "crossing_year lib annual window t = year_min (where_drop ?sm t)"
    by (simp add: crossing_year_def r first_crossing_year_def)
  have "where_drop ?sm t = [] \<longleftrightarrow> (\<forall>y. \<not> candidate lib annual (nat window) t y)"
    using s by (metis empty_Collect_eq set_empty)
  then show ?thesis using True unfolding c year_min_Inl by auto
qed

section \<open>Widening an odd window by one\<close>




section \<open>The loop in closed form\<close>

text \<open>
  A run of the accumulation cell adds to the dictionary what \<^const>\<open>written\<close> computes
  from the ensemble, the thresholds and the window alone: every list is emptied before it
  is filled, so nothing of the dictionary the run starts from enters a list.
\<close>

lemma models_loop_eq:
  assumes "g temp = Some acc"
  shows "models_loop lib window temp models g =
         (first_error (outcomes lib window temp models),
          g(temp \<mapsto> acc @ prefix_years (outcomes lib window temp models)))"
  using assms
proof (induction models arbitrary: g acc)
  case Nil
  then show ?case by (simp add: outcomes_def map_upd_triv)
next
  case (Cons annual rest)
  show ?case
  proof (cases "crossing_year lib annual window (value_of temp)")
    case (Inl e)
    then show ?thesis using Cons.prems by (simp add: outcomes_def map_upd_triv)
  next
    case (Inr y)
    have "models_loop lib window temp rest (g(temp \<mapsto> acc @ [y])) =
          (first_error (outcomes lib window temp rest),
           (g(temp \<mapsto> acc @ [y]))(temp \<mapsto> (acc @ [y]) @ prefix_years (outcomes lib window temp rest)))"
      by (rule Cons.IH) simp
    with Inr Cons.prems show ?thesis by (simp add: outcomes_def del: fun_upd_apply)
  qed
qed

lemma temps_loop_eq:
  "temps_loop lib window ts models g = (fst (written lib window ts models), g ++ snd (written lib window ts models))"
proof (induction ts arbitrary: g)
  case Nil
  show ?case by simp
next
  case (Cons temp rest)
  have m: "models_loop lib window temp models (g(temp \<mapsto> [])) =
        (first_error (outcomes lib window temp models),
          g(temp \<mapsto> prefix_years (outcomes lib window temp models)))"
    using models_loop_eq[of "g(temp \<mapsto> [])" temp "[]" lib window models] by simp
  let ?p = "prefix_years (outcomes lib window temp models)"
  have u: "g(temp \<mapsto> ?p) ++ u = g ++ ([temp \<mapsto> ?p] ++ u)" for u
    by (rule ext) (simp add: map_add_def split: option.splits)
  show ?case
  proof (cases "first_error (outcomes lib window temp models)")
    case None
    have "temps_loop lib window rest models (g(temp \<mapsto> ?p)) =
          (fst (written lib window rest models), g(temp \<mapsto> ?p) ++ snd (written lib window rest models))"
      by (rule Cons.IH)
    then show ?thesis using m None unfolding u by simp
  next
    case (Some e)
    have "g ++ [temp \<mapsto> ?p] = g(temp \<mapsto> ?p)" by simp
    then show ?thesis using m Some by (simp del: map_add_upd fun_upd_apply)
  qed
qed

lemma map_add_twice: "(g ++ u) ++ u = g ++ u"
  by (rule ext) (simp add: map_add_def split: option.splits)

lemma analyze_eq:
  "analyze lib ensemble ts window g =
     (fst (written lib window ts (map snd ensemble)), g ++ snd (written lib window ts (map snd ensemble)))"
  by (simp add: analyze_def temps_loop_eq)

lemma dom_written: "dom (snd (written lib window ts models)) \<subseteq> set ts"
  by (induction ts) (auto split: option.splits)

lemma written_None:
  "fst (written lib window ts models) = None \<longleftrightarrow>
   (\<forall>t\<in>set ts. first_error (outcomes lib window t models) = None)"
  by (induction ts) (auto split: option.splits)

lemma written_lookup:
  assumes "fst (written lib window ts models) = None" "t \<in> set ts"
  shows "snd (written lib window ts models) t = Some (prefix_years (outcomes lib window t models))"
  using assms
proof (induction ts)
  case Nil
  then show ?case by simp
next
  case (Cons temp rest)
  from Cons.prems(1) have n: "first_error (outcomes lib window temp models) = None"
    and r: "fst (written lib window rest models) = None"
    by (auto split: option.splits)
  show ?case
  proof (cases "t \<in> set rest")
    case True
    from Cons.IH[OF r True] n show ?thesis by (simp add: map_add_def)
  next
    case False
    with Cons.prems(2) have t: "t = temp" by simp
    from False dom_written[of lib window rest models] have "snd (written lib window rest models) t = None"
      by blast
    with n t show ?thesis by (simp add: map_add_def)
  qed
qed

lemma first_error_None: "first_error rs = None \<longleftrightarrow> (\<forall>r\<in>set rs. \<not> isl r)"
  by (induction rs rule: first_error.induct) simp_all

lemma prefix_years_all: "first_error rs = None \<Longrightarrow> prefix_years rs = map projr rs"
  by (induction rs rule: first_error.induct) simp_all

lemma valid_years_all: "first_error rs = None \<Longrightarrow> valid_years rs = map projr rs"
  by (induction rs rule: first_error.induct) (simp_all add: valid_years_def)

lemma all_reached_iff:
  "all_reached lib ensemble ts window \<longleftrightarrow>
   (\<forall>t\<in>set ts. first_error (outcomes lib window t (map snd ensemble)) = None)"
  by (simp add: all_reached_def list_all_iff first_error_None outcomes_def case_prod_beta)

lemma analyze_fst:
  "fst (analyze lib ensemble ts window g) = None \<longleftrightarrow> all_reached lib ensemble ts window"
  by (simp add: analyze_eq written_None all_reached_iff)

lemma analyze_lookup:
  assumes "all_reached lib ensemble ts window" "t \<in> set ts"
  shows "snd (analyze lib ensemble ts window g) t =
         Some (map (\<lambda>annual. projr (crossing_year lib annual window (value_of t))) (map snd ensemble))"
proof -
  from assms have n: "first_error (outcomes lib window t (map snd ensemble)) = None"
    by (simp add: all_reached_iff)
  have f: "fst (written lib window ts (map snd ensemble)) = None"
    using assms(1) by (simp add: written_None all_reached_iff)
  have "snd (analyze lib ensemble ts window g) t = Some (prefix_years (outcomes lib window t (map snd ensemble)))"
    using written_lookup[OF f assms(2)] by (simp add: analyze_eq map_add_def)
  also have "prefix_years (outcomes lib window t (map snd ensemble)) =
             map (\<lambda>annual. projr (crossing_year lib annual window (value_of t))) (map snd ensemble)"
    using prefix_years_all[OF n] by (simp add: outcomes_def)
  finally show ?thesis .
qed

section \<open>The table in closed form\<close>

lemma sort_key_unique:
  assumes "distinct (map f xs)" "distinct (map f ys)" "set xs = set ys"
  shows "sort_key f xs = sort_key f ys"
proof -
  have dx: "distinct (map f (sort_key f xs))" and dy: "distinct (map f (sort_key f ys))"
    using assms(1,2) by (simp_all add: distinct_map)
  have "set (map f (sort_key f xs)) = set (map f (sort_key f ys))" using assms(3) by simp
  then have "map f (sort_key f xs) = map f (sort_key f ys)"
    using dx dy by (intro sorted_distinct_set_unique) (simp_all only: sorted_sort_key)
  moreover have "inj_on f (set (sort_key f xs) \<union> set (sort_key f ys))"
    using assms by (simp add: distinct_map)
  ultimately show ?thesis by (simp only: inj_on_map_eq_map)
qed

lemma map_key_sort_key:
  assumes "distinct (map f xs)"
  shows "map f (sort_key f xs) = sort (map f xs)"
proof -
  have "distinct (map f (sort_key f xs))" using assms by (simp add: distinct_map)
  moreover have "distinct (sort (map f xs))" using assms by simp
  moreover have "set (map f (sort_key f xs)) = set (sort (map f xs))" by simp
  ultimately show ?thesis
    by (intro sorted_distinct_set_unique) (simp_all only: sorted_sort_key sorted_sort)
qed

lemma lookup_all_Some:
  "\<forall>k\<in>set ks. g k = Some (f k) \<Longrightarrow> lookup_all g ks = Inr (map f ks)"
  by (induction ks) simp_all

lemma vstack_T_columns:
  assumes "ts \<noteq> []"
  shows "vstack_T (map (\<lambda>t. map (Y t) ms) ts) = Inr (map (\<lambda>a. map (\<lambda>t. Y t a) ts) ms)"
proof -
  let ?arrays = "map (\<lambda>t. map (Y t) ms) ts"
  have h: "length (hd ?arrays) = length ms" using assms by (simp add: hd_map)
  have all: "list_all (\<lambda>a. length a = length (hd ?arrays)) ?arrays"
    unfolding h by (simp add: list_all_iff)
  have "map (\<lambda>m. map (\<lambda>a. a ! m) ?arrays) [0..<length ms] = map (\<lambda>a. map (\<lambda>t. Y t a) ts) ms"
    by (rule nth_equalityI) (simp_all add: o_def)
  then show ?thesis using all unfolding vstack_T_def h by simp
qed

lemma export_table_eq:
  assumes "\<forall>t\<in>set temps. g t = Some (map (Y t) ms)" "length names = length ms"
  shows "export_table names temps g =
         Inr (sort_index \<lparr>columns = temps, rows = zip names (map (\<lambda>a. map (\<lambda>t. Y t a) temps) ms)\<rparr>)"
proof -
  have k: "[PyInt 1, PyFloat (3 / 2), PyInt 2, PyFloat (5 / 2), PyInt 3] = temps" by (simp add: temps_def)
  have ne: "temps \<noteq> []" by (simp add: temps_def)
  have l: "lookup_all g temps = Inr (map (\<lambda>t. map (Y t) ms) temps)"
    by (rule lookup_all_Some[OF assms(1)])
  show ?thesis unfolding export_table_def k l using vstack_T_columns[OF ne, of Y ms] assms(2)
    by simp
qed

lemma zip_fst_snd: "zip (map fst xs) (map h (map snd xs)) = map (\<lambda>(m, a). (m, h a)) xs"
  by (induction xs) auto

lemma notebook_table_eq:
  assumes "all_reached lib ensemble temps window"
  shows "notebook_table lib ensemble temps window g =
         Inr \<lparr>columns = temps,
              rows = sort_key fst (map (\<lambda>(m, annual). (m, table_row lib annual temps window)) ensemble)\<rparr>"
proof -
  obtain g' where g': "analyze lib ensemble temps window g = (None, g')"
    using assms analyze_fst[of lib ensemble temps window g]
    by (cases "analyze lib ensemble temps window g") simp
  have "\<forall>t\<in>set temps. g' t =
          Some (map (\<lambda>annual. projr (crossing_year lib annual window (value_of t))) (map snd ensemble))"
    using analyze_lookup[OF assms, of _ g] g' by simp
  from export_table_eq[of g' "\<lambda>t annual. projr (crossing_year lib annual window (value_of t))" "map snd ensemble"
        "map fst ensemble", OF this]
  have "export_table (map fst ensemble) temps g' =
        Inr (sort_index \<lparr>columns = temps,
           rows = map (\<lambda>(m, annual). (m, table_row lib annual temps window)) ensemble\<rparr>)"
    unfolding zip_fst_snd table_row_def by simp
  then show ?thesis by (simp add: notebook_table_def g' sort_index_def)
qed

lemma table_row_Inr:
  assumes "all_reached lib ensemble temps window" "(m, annual) \<in> set ensemble"
  shows "map Inr (table_row lib annual temps window) = map (\<lambda>t. crossing_year lib annual window (value_of t)) temps"
proof -
  have "\<not> isl (crossing_year lib annual window (value_of t))" if "t \<in> set temps" for t
    using assms that by (auto simp: all_reached_def list_all_iff)
  then show ?thesis unfolding table_row_def by (simp add: o_def)
qed

section \<open>Evaluations on the examples\<close>

lemma rolling_rising_2:
  "rolling_mean own_windows rising 2 =
     Inr [(2000, None), (2001, Some (1 / 2)), (2002, Some (3 / 2)), (2003, Some (5 / 2))]"
  by code_simp

lemma candidate_rising: "candidate own_windows rising (nat 2) 1 2002"
proof -
  have "(2::nat) < length rising \<and> fst (rising ! 2) = 2002 \<and> in_bounds (nat 2) (length rising) 2 \<and>
        1 \<le> smoothed_value own_windows (nat 2) (map snd rising) 2"
    by (simp add: rising_def in_bounds_def smoothed_value_def window_values_def own_windows_def)
  then show ?thesis unfolding candidate_def by blast
qed

lemma rolling_flat_1:
  "rolling_mean own_windows flat 1 = Inr [(2000, Some (1 / 2)), (2001, Some (1 / 2))]"
  by code_simp

lemma no_candidate_flat: "\<forall>y. \<not> candidate own_windows flat (nat 1) 1 y"
proof -
  have "\<not> 1 \<le> smoothed_value own_windows (nat 1) (map snd flat) i" if "i < length flat" for i
  proof -
    from that have "i = 0 \<or> i = 1" by (auto simp: flat_def)
    then show ?thesis
      by (auto simp: flat_def smoothed_value_def window_values_def own_windows_def)
  qed
  then show ?thesis unfolding candidate_def by blast
qed


lemma reached_all: "all_reached own_windows ensemble_reached temps 1"
  by code_simp

lemma reached_names: "distinct (map fst ensemble_reached)"
  by (simp add: ensemble_reached_def)

lemma two_in_temps: "PyInt 2 \<in> set temps"
  by (simp add: temps_def)

lemma reached_years_2:
  "valid_years (outcomes own_windows 1 (PyInt 2) (map snd ensemble_reached)) = [2001, 2000]"
  by code_simp

lemma reached_summary_2:
  "np_median [2001, 2000] = Some (4001 / 2)"
  "interpolate [2001, 2000] (5 / 100) = 40001 / 20"
  "interpolate [2001, 2000] (95 / 100) = 40019 / 20"
  by code_simp+

section \<open>Properties of the notebook\<close>

text \<open>
  C1. Applied to the output of the rolling mean, \<^const>\<open>first_crossing_year\<close> returns the
  smallest year whose smoothed value is defined, its centred window being in bounds, and at
  least the threshold, whenever there is such a year.
\<close>

theorem first_crossing_year_smallest:
  assumes "rolling_mean lib annual window = Inr smoothed"
    and "candidate lib annual (nat window) t y0"
  shows "\<exists>y. first_crossing_year smoothed t = Inr y \<and> candidate lib annual (nat window) t y \<and>
           (\<forall>y'. candidate lib annual (nat window) t y' \<longrightarrow> y \<le> y')"
proof -
  let ?ys = "where_drop smoothed t"
  have s: "set ?ys = {y. candidate lib annual (nat window) t y}"
    by (rule set_where_drop_rolling[OF assms(1)])
  with assms(2) have ne: "?ys \<noteq> []" by auto
  then have "first_crossing_year smoothed t = Inr (Min (set ?ys))"
    by (simp add: first_crossing_year_def year_min_Inr)
  moreover have "Min (set ?ys) \<in> set ?ys" using ne by (intro Min_in) simp_all
  moreover have "\<forall>y'\<in>set ?ys. Min (set ?ys) \<le> y'" by simp
  ultimately show ?thesis unfolding s by blast
qed

text \<open>
  The series \<^const>\<open>rising\<close> with window 2 and threshold 1: the year 2002 qualifies.
\<close>

theorem first_crossing_year_smallest_witness:
  "rolling_mean own_windows rising 2 =
     Inr [(2000, None), (2001, Some (1 / 2)), (2002, Some (3 / 2)), (2003, Some (5 / 2))] \<and>
   candidate own_windows rising (nat 2) 1 2002 \<and>
   (\<exists>y. first_crossing_year
           [(2000, None), (2001, Some (1 / 2)), (2002, Some (3 / 2)), (2003, Some (5 / 2))] 1 = Inr y \<and>
        candidate own_windows rising (nat 2) 1 y \<and>
        (\<forall>y'. candidate own_windows rising (nat 2) 1 y' \<longrightarrow> y \<le> y'))"
  using first_crossing_year_smallest[OF rolling_rising_2 candidate_rising]
    rolling_rising_2 candidate_rising
  by blast

text \<open>
  C2, as the notebook has it. When no smoothed value with its window in bounds reaches the
  threshold, the minimum is taken over no year at all and raises: the outcome is the error
  \<^const>\<open>EmptyReduction\<close>, which is no year, and no year is returned in its place.
\<close>

theorem first_crossing_year_unreached:
  assumes "rolling_mean lib annual window = Inr smoothed"
    and "\<forall>y. \<not> candidate lib annual (nat window) t y"
  shows "first_crossing_year smoothed t = Inl EmptyReduction \<and>
         (\<forall>y. first_crossing_year smoothed t \<noteq> Inr y)"
proof -
  have "set (where_drop smoothed t) = {}"
    using set_where_drop_rolling[OF assms(1), of t] assms(2) by simp
  then show ?thesis by (simp add: first_crossing_year_def year_min_def)
qed

text \<open>
  The series \<^const>\<open>flat\<close> stays at 0.5 and never reaches 1.
\<close>

theorem first_crossing_year_unreached_witness:
  "rolling_mean own_windows flat 1 = Inr [(2000, Some (1 / 2)), (2001, Some (1 / 2))] \<and>
   (\<forall>y. \<not> candidate own_windows flat (nat 1) 1 y) \<and>
   first_crossing_year [(2000, Some (1 / 2)), (2001, Some (1 / 2))] 1 = Inl EmptyReduction"
  using first_crossing_year_unreached[OF rolling_flat_1 no_candidate_flat]
    rolling_flat_1 no_candidate_flat
  by blast

text \<open>
  The claim that nothing is raised fails there: the cell ends with the exception.
\<close>

theorem first_crossing_year_unreached_counterexample:
  "crossing_year own_windows flat 1 1 = Inl EmptyReduction \<and>
   crossing_year moving_mean flat 1 1 = Inl EmptyReduction"
proof -
  have "crossing_year own_windows flat 1 1 = Inl EmptyReduction" by code_simp
  moreover have "crossing_year moving_mean flat 1 1 = Inl EmptyReduction" by code_simp
  ultimately show ?thesis by simp
qed




text \<open>
  C4, as the notebook has it. The list of a threshold never holds an entry for a model
  without a crossing year: such a model ends the run with its exception, and the summary
  cell is not reached. When every model of the ensemble reaches every threshold of the run,
  the median and the 5th and 95th percentile are taken over the crossing years of all the
  models, which are then the valid ones; of no model at all, the quantile raises.
\<close>

theorem summary_over_all_models:
  assumes "temp \<in> set ts"
  shows "notebook_summary lib ensemble ts window temp g =
           (case fst (analyze lib ensemble ts window g) of
              Some e \<Rightarrow> Inl e
            | None \<Rightarrow>
                if valid_years (outcomes lib window temp (map snd ensemble)) = []
                then Inl IndexError
                else Inr (np_median (valid_years (outcomes lib window temp (map snd ensemble))),
                          interpolate (valid_years (outcomes lib window temp (map snd ensemble))) (5 / 100),
                          interpolate (valid_years (outcomes lib window temp (map snd ensemble))) (95 / 100))) \<and>
         (fst (analyze lib ensemble ts window g) = None) = all_reached lib ensemble ts window \<and>
         (all_reached lib ensemble ts window \<longrightarrow>
            map Inr (valid_years (outcomes lib window temp (map snd ensemble))) =
            outcomes lib window temp (map snd ensemble))"
proof (intro conjI impI)
  let ?ys = "valid_years (outcomes lib window temp (map snd ensemble))"
  show f: "(fst (analyze lib ensemble ts window g) = None) = all_reached lib ensemble ts window"
    by (rule analyze_fst)
  have v: "?ys = map projr (outcomes lib window temp (map snd ensemble))"
    and w: "\<forall>r\<in>set (outcomes lib window temp (map snd ensemble)). \<not> isl r"
    if a: "all_reached lib ensemble ts window"
  proof -
    from a assms have n: "first_error (outcomes lib window temp (map snd ensemble)) = None"
      by (simp add: all_reached_iff)
    then show "\<forall>r\<in>set (outcomes lib window temp (map snd ensemble)). \<not> isl r"
      by (simp add: first_error_None)
    show "?ys = map projr (outcomes lib window temp (map snd ensemble))"
      by (rule valid_years_all[OF n])
  qed
  show "map Inr ?ys = outcomes lib window temp (map snd ensemble)"
    if a: "all_reached lib ensemble ts window"
    unfolding v[OF a] using w[OF a] by (simp add: map_idI)
  have st: "statistics ys =
            (if ys = [] then Inl IndexError
             else Inr (np_median ys, interpolate ys (5 / 100), interpolate ys (95 / 100)))" for ys
    by (simp add: statistics_def np_quantile_def)
  show "notebook_summary lib ensemble ts window temp g =
           (case fst (analyze lib ensemble ts window g) of
              Some e \<Rightarrow> Inl e
            | None \<Rightarrow>
                if ?ys = [] then Inl IndexError
                else Inr (np_median ?ys, interpolate ?ys (5 / 100), interpolate ?ys (95 / 100)))"
  proof (cases "analyze lib ensemble ts window g")
    case (Pair r g')
    show ?thesis
    proof (cases r)
      case None
      with Pair f have a: "all_reached lib ensemble ts window" by simp
      have "g' temp = Some ?ys"
        using analyze_lookup[OF a assms, of g] Pair unfolding v[OF a] by (simp add: outcomes_def)
      then show ?thesis using Pair None by (simp add: notebook_summary_def summary_def st)
    next
      case (Some e)
      then show ?thesis using Pair by (simp add: notebook_summary_def)
    qed
  qed
qed

text \<open>
  The two models of \<^const>\<open>ensemble_reached\<close> cross 2 degrees in 2001 and in 2000: the
  median is 2000.5, the percentiles are 2000.05 and 2000.95.
\<close>

theorem summary_over_all_models_witness:
  "PyInt 2 \<in> set temps \<and> all_reached own_windows ensemble_reached temps 1 \<and>
   notebook_summary own_windows ensemble_reached temps 1 (PyInt 2) Map.empty =
     Inr (Some (4001 / 2), 40001 / 20, 40019 / 20) \<and>
   map Inr [2001, 2000] = outcomes own_windows 1 (PyInt 2) (map snd ensemble_reached)"
proof -
  have a: "fst (analyze own_windows ensemble_reached temps 1 Map.empty) = None"
    using reached_all by (simp add: analyze_fst)
  from summary_over_all_models[OF two_in_temps, of own_windows ensemble_reached 1 Map.empty]
  have s: "notebook_summary own_windows ensemble_reached temps 1 (PyInt 2) Map.empty =
           (case fst (analyze own_windows ensemble_reached temps 1 Map.empty) of
              Some e \<Rightarrow> Inl e
            | None \<Rightarrow>
                if valid_years (outcomes own_windows 1 (PyInt 2) (map snd ensemble_reached)) = []
                then Inl IndexError
                else Inr (np_median (valid_years (outcomes own_windows 1 (PyInt 2) (map snd ensemble_reached))),
                          interpolate (valid_years (outcomes own_windows 1 (PyInt 2) (map snd ensemble_reached))) (5 / 100),
                          interpolate (valid_years (outcomes own_windows 1 (PyInt 2) (map snd ensemble_reached))) (95 / 100)))"
    and m: "all_reached own_windows ensemble_reached temps 1 \<longrightarrow>
            map Inr (valid_years (outcomes own_windows 1 (PyInt 2) (map snd ensemble_reached))) =
            outcomes own_windows 1 (PyInt 2) (map snd ensemble_reached)"
    by blast+
  have "notebook_summary own_windows ensemble_reached temps 1 (PyInt 2) Map.empty =
     Inr (Some (4001 / 2), 40001 / 20, 40019 / 20)"
    using s unfolding a reached_years_2 reached_summary_2
    by (simp only: option.case list.distinct if_False)
  moreover have "map Inr [2001, 2000] = outcomes own_windows 1 (PyInt 2) (map snd ensemble_reached)"
    using m reached_all unfolding reached_years_2 by blast
  ultimately show ?thesis using two_in_temps reached_all by blast
qed

text \<open>
  In \<^const>\<open>ensemble_unreached\<close> one model crosses 1 degree in 2001 and the other never
  does. A summary that skips the second model would be taken over the year 2001; the
  notebook raises instead.
\<close>

theorem summary_over_all_models_counterexample:
  "notebook_summary own_windows ensemble_unreached [PyInt 1] 1 (PyInt 1) Map.empty = Inl EmptyReduction \<and>
   valid_years (outcomes own_windows 1 (PyInt 1) (map snd ensemble_unreached)) = [2001]"
proof -
  have "notebook_summary own_windows ensemble_unreached [PyInt 1] 1 (PyInt 1) Map.empty = Inl EmptyReduction"
    by code_simp
  moreover have "valid_years (outcomes own_windows 1 (PyInt 1) (map snd ensemble_unreached)) = [2001]"
    by code_simp
  ultimately show ?thesis by simp
qed

text \<open>
  C5. A run of the accumulation cell is a function of the ensemble, the thresholds and
  the window. Run again on the dictionary the first run left, it ends in the same way with
  the same dictionary. From two different dictionaries it ends in the same way, and where
  it ends without an exception it leaves the same list under every threshold.
\<close>

theorem analyze_rerun:
  "analyze lib ensemble ts window (snd (analyze lib ensemble ts window g)) = analyze lib ensemble ts window g \<and>
   fst (analyze lib ensemble ts window g1) = fst (analyze lib ensemble ts window g2) \<and>
   (fst (analyze lib ensemble ts window g1) = None \<longrightarrow>
      (\<forall>t\<in>set ts. snd (analyze lib ensemble ts window g1) t = snd (analyze lib ensemble ts window g2) t))"
proof (intro conjI impI ballI)
  show "analyze lib ensemble ts window (snd (analyze lib ensemble ts window g)) = analyze lib ensemble ts window g"
    by (simp add: analyze_eq map_add_twice)
  show "fst (analyze lib ensemble ts window g1) = fst (analyze lib ensemble ts window g2)"
    by (simp add: analyze_eq)
  fix t assume "fst (analyze lib ensemble ts window g1) = None" "t \<in> set ts"
  then have "all_reached lib ensemble ts window" by (simp add: analyze_fst)
  from analyze_lookup[OF this \<open>t \<in> set ts\<close>]
  show "snd (analyze lib ensemble ts window g1) t = snd (analyze lib ensemble ts window g2) t"
    by simp
qed

text \<open>
  A run from an empty dictionary against a run that finds a stale list under 2.
\<close>

theorem analyze_rerun_witness:
  "fst (analyze own_windows ensemble_reached temps 1 Map.empty) = None \<and>
   analyze own_windows ensemble_reached temps 1
       (snd (analyze own_windows ensemble_reached temps 1 Map.empty)) =
     analyze own_windows ensemble_reached temps 1 Map.empty \<and>
   PyInt 2 \<in> set temps \<and>
   snd (analyze own_windows ensemble_reached temps 1 Map.empty) (PyInt 2) =
     snd (analyze own_windows ensemble_reached temps 1 [PyInt 2 \<mapsto> [1999]]) (PyInt 2)"
proof -
  have h: "fst (analyze own_windows ensemble_reached temps 1 Map.empty) = None"
    using reached_all by (simp add: analyze_fst)
  from analyze_rerun[of own_windows ensemble_reached temps 1 Map.empty Map.empty
      "[PyInt 2 \<mapsto> [1999]]"] h two_in_temps
  show ?thesis by blast
qed

text \<open>
  C6, as the library has it. A series that is shorter than the window, and not too short
  for the rolling mean to run, is smoothed to a series of the same years in which every
  entry is undefined, and nothing is raised: that is every series of at least one year,
  and with the moving mean of \<^verbatim>\<open>bottleneck\<close> every series of more than \<open>W div 2\<close> years.
  On a series that is too short the rolling mean raises.
\<close>

theorem rolling_mean_short:
  assumes "0 < window" "int (length annual) < window"
  shows "rolling_mean lib annual window =
         (if too_short lib (nat window) (length annual) then Inl WindowTooLong
          else Inr (map (\<lambda>(year, v). (year, None)) annual))"
proof -
  have "\<not> in_bounds (nat window) (length annual) i" for i
    using assms unfolding in_bounds_def by (simp; linarith)
  then have "map (smoothed_entry lib annual (nat window)) [0..<length annual] =
             map (\<lambda>(year, v). (year, None)) annual"
    by (intro nth_equalityI) (simp_all add: smoothed_entry_def case_prod_beta)
  then show ?thesis using rolling_mean_eq[OF assms(1), of lib annual] by simp
qed

text \<open>
  The two years of \<^const>\<open>flat\<close>: under the window of 20 years of the notebook with the
  library's own reduction, and under a window of 3 years with the moving mean.
\<close>

theorem rolling_mean_short_witness:
  "0 < rolling_ave_window \<and> int (length flat) < rolling_ave_window \<and>
   rolling_mean own_windows flat rolling_ave_window = Inr [(2000, None), (2001, None)] \<and>
   rolling_mean moving_mean flat 3 = Inr [(2000, None), (2001, None)]"
proof -
  have h1: "0 < rolling_ave_window" by (simp add: rolling_ave_window_def)
  have h2: "int (length flat) < rolling_ave_window" by (simp add: flat_def rolling_ave_window_def)
  have a: "\<not> too_short own_windows (nat rolling_ave_window) (length flat)"
    by (simp add: too_short_def own_windows_def flat_def)
  have h3: "(0::int) < 3" and h4: "int (length flat) < 3" by (simp_all add: flat_def)
  have b: "\<not> too_short moving_mean (nat 3) (length flat)"
    by (simp add: too_short_def moving_mean_def flat_def)
  from rolling_mean_short[OF h1 h2, of own_windows] a
  have "rolling_mean own_windows flat rolling_ave_window = Inr [(2000, None), (2001, None)]"
    by (simp add: flat_def)
  moreover from rolling_mean_short[OF h3 h4, of moving_mean] b
  have "rolling_mean moving_mean flat 3 = Inr [(2000, None), (2001, None)]"
    by (simp add: flat_def)
  ultimately show ?thesis using h1 h2 by blast
qed

text \<open>
  The series with no year is shorter than the window of the notebook and raises, whichever
  way the library computes; so do the two years of \<^const>\<open>flat\<close> under the moving mean.
\<close>

theorem rolling_mean_short_counterexample:
  "rolling_mean own_windows [] rolling_ave_window = Inl WindowTooLong \<and>
   rolling_mean moving_mean [] rolling_ave_window = Inl WindowTooLong \<and>
   rolling_mean moving_mean flat rolling_ave_window = Inl WindowTooLong"
proof -
  have "rolling_mean own_windows [] rolling_ave_window = Inl WindowTooLong" by code_simp
  moreover have "rolling_mean moving_mean [] rolling_ave_window = Inl WindowTooLong" by code_simp
  moreover have "rolling_mean moving_mean flat rolling_ave_window = Inl WindowTooLong" by code_simp
  ultimately show ?thesis by simp
qed




text \<open>
  C8, as the notebook has it. For the thresholds 1, 1.5, 2, 2.5 and 3 that the export cell
  spells out, an ensemble with pairwise different model names in which every model reaches
  every threshold is exported as a table with these thresholds as columns and one row per
  model, the rows in the order of the sorted names; the row of a model holds its crossing
  year for each threshold. The table is the same for every order of the models in the
  ensemble and for every dictionary the run starts from.
\<close>

theorem table_sorted_by_model:
  assumes "all_reached lib ensemble temps window" "distinct (map fst ensemble)"
  shows "\<exists>df. notebook_table lib ensemble temps window g = Inr df \<and> columns df = temps \<and>
           map fst (rows df) = sort (map fst ensemble) \<and>
           (\<forall>(m, annual)\<in>set ensemble. \<exists>row. (m, row) \<in> set (rows df) \<and>
              map Inr row = map (\<lambda>t. crossing_year lib annual window (value_of t)) temps) \<and>
           (\<forall>ensemble' g'. set ensemble' = set ensemble \<and> distinct (map fst ensemble') \<longrightarrow>
              notebook_table lib ensemble' temps window g' = Inr df)"
proof -
  let ?h = "\<lambda>(m, annual). (m, table_row lib annual temps window)"
  let ?df = "\<lparr>columns = temps, rows = sort_key fst (map ?h ensemble)\<rparr>"
  have fh: "map fst (map ?h e) = map fst e" for e :: Ensemble
    by (induction e) auto
  have 1: "notebook_table lib ensemble temps window g = Inr ?df"
    by (rule notebook_table_eq[OF assms(1)])
  have fo: "fst \<circ> ?h = fst"
    by (rule ext) (simp add: case_prod_beta)
  have 2: "map fst (rows ?df) = sort (map fst ensemble)"
    using map_key_sort_key[of fst "map ?h ensemble"] assms(2) by (simp add: fo)
  have 3: "\<exists>row. (m, row) \<in> set (rows ?df) \<and>
              map Inr row = map (\<lambda>t. crossing_year lib annual window (value_of t)) temps"
    if "(m, annual) \<in> set ensemble" for m annual
  proof -
    have "(m, table_row lib annual temps window) \<in> set (rows ?df)" using that by force
    with table_row_Inr[OF assms(1) that] show ?thesis by blast
  qed
  have 4: "notebook_table lib ensemble' temps window g' = Inr ?df"
    if s: "set ensemble' = set ensemble" and d: "distinct (map fst ensemble')" for ensemble' g'
  proof -
    have "all_reached lib ensemble' temps window"
      using assms(1) s by (simp add: all_reached_def list_all_iff)
    then have "notebook_table lib ensemble' temps window g' =
         Inr \<lparr>columns = temps, rows = sort_key fst (map ?h ensemble')\<rparr>"
      by (rule notebook_table_eq)
    moreover have "sort_key fst (map ?h ensemble') = sort_key fst (map ?h ensemble)"
      using assms(2) d s by (intro sort_key_unique) (simp_all add: fo)
    ultimately show ?thesis by simp
  qed
  have 0: "columns ?df = temps" by simp
  have r3: "\<forall>(m, annual)\<in>set ensemble. \<exists>row. (m, row) \<in> set (rows ?df) \<and>
              map Inr row = map (\<lambda>t. crossing_year lib annual window (value_of t)) temps"
    using 3 by blast
  have r4: "\<forall>ensemble' g'. set ensemble' = set ensemble \<and> distinct (map fst ensemble') \<longrightarrow>
              notebook_table lib ensemble' temps window g' = Inr ?df"
    using 4 by blast
  show ?thesis
    by (rule exI[of _ ?df]) (intro conjI 0 1 2 r3 r4)
qed

text \<open>
  The ensemble \<^const>\<open>ensemble_reached\<close> and its reversal.
\<close>

theorem table_sorted_by_model_witness:
  "all_reached own_windows ensemble_reached temps 1 \<and> distinct (map fst ensemble_reached) \<and>
   (\<exists>df. notebook_table own_windows ensemble_reached temps 1 Map.empty = Inr df \<and>
      map fst (rows df) = [''CanESM5'', ''MIROC6''] \<and>
      notebook_table own_windows (rev ensemble_reached) temps 1 Map.empty = Inr df)"
proof -
  from table_sorted_by_model[OF reached_all reached_names, of Map.empty]
  obtain df where df: "notebook_table own_windows ensemble_reached temps 1 Map.empty = Inr df"
    "map fst (rows df) = sort (map fst ensemble_reached)"
    "\<forall>ensemble' g'. set ensemble' = set ensemble_reached \<and> distinct (map fst ensemble') \<longrightarrow>
        notebook_table own_windows ensemble' temps 1 g' = Inr df"
    by blast
  have "sort (map fst ensemble_reached) = [''CanESM5'', ''MIROC6'']"
    by code_simp
  moreover have "set (rev ensemble_reached) = set ensemble_reached \<and>
                 distinct (map fst (rev ensemble_reached))"
    using reached_names by (simp only: set_rev distinct_rev rev_map[symmetric] simp_thms)
  ultimately show ?thesis using df reached_all reached_names by metis
qed

text \<open>
  No table is exported when a model does not reach a threshold, nor when the thresholds
  of the run are not the five of the export cell: the first run ends with the exception of
  the empty minimum, the second with a name that is not in the dictionary.
\<close>

theorem table_sorted_by_model_counterexample:
  "notebook_table own_windows ensemble_unreached temps 1 Map.empty = Inl EmptyReduction \<and>
   all_reached own_windows ensemble_reached [PyInt 1, PyInt 2] 1 \<and>
   notebook_table own_windows ensemble_reached [PyInt 1, PyInt 2] 1 Map.empty = Inl KeyError"
proof -
  have "notebook_table own_windows ensemble_unreached temps 1 Map.empty = Inl EmptyReduction"
    by code_simp
  moreover have "all_reached own_windows ensemble_reached [PyInt 1, PyInt 2] 1" by code_simp
  moreover have "notebook_table own_windows ensemble_reached [PyInt 1, PyInt 2] 1 Map.empty = Inl KeyError"
    by code_simp
  ultimately show ?thesis by simp
qed

text \<open>
  C9, as the notebook has it. The years of a series are never checked. For every series,
  whatever the order of its years and with or without repeated years, and every positive
  window, either the series is too short for the rolling mean, which raises, or the
  rolling mean keeps the years as they are and the outcome is the smallest year that
  qualifies, or the error of a threshold that is not reached when none does.
\<close>

theorem crossing_no_validation:
  assumes "0 < window"
  shows "(too_short lib (nat window) (length annual) \<and>
            rolling_mean lib annual window = Inl WindowTooLong \<and>
            crossing_year lib annual window t = Inl WindowTooLong) \<or>
         ((\<exists>sm. rolling_mean lib annual window = Inr sm \<and> map fst sm = map fst annual) \<and>
          ((\<forall>y. \<not> candidate lib annual (nat window) t y) \<and>
             crossing_year lib annual window t = Inl EmptyReduction \<or>
           (\<exists>y\<in>set (map fst annual). crossing_year lib annual window t = Inr y \<and>
              candidate lib annual (nat window) t y \<and>
              (\<forall>y'. candidate lib annual (nat window) t y' \<longrightarrow> y \<le> y'))))"
proof (cases "too_short lib (nat window) (length annual)")
  case True
  then have "rolling_mean lib annual window = Inl WindowTooLong"
    using assms by (simp add: rolling_mean_eq)
  moreover have "crossing_year lib annual window t = Inl WindowTooLong"
    using True assms by (simp add: crossing_year_Inl)
  ultimately show ?thesis using True by blast
next
  case False
  have r: "\<exists>sm. rolling_mean lib annual window = Inr sm \<and> map fst sm = map fst annual"
    using rolling_mean_eq[OF assms, of lib annual] False
      map_fst_smoothed[of lib annual "nat window"] by simp
  have "(\<forall>y. \<not> candidate lib annual (nat window) t y) \<and>
             crossing_year lib annual window t = Inl EmptyReduction \<or>
           (\<exists>y\<in>set (map fst annual). crossing_year lib annual window t = Inr y \<and>
              candidate lib annual (nat window) t y \<and>
              (\<forall>y'. candidate lib annual (nat window) t y' \<longrightarrow> y \<le> y'))"
  proof (cases "crossing_year lib annual window t")
    case (Inl e)
    then show ?thesis using assms False by (simp add: crossing_year_Inl)
  next
    case (Inr y)
    then have c: "candidate lib annual (nat window) t y"
      and l: "\<forall>y'. candidate lib annual (nat window) t y' \<longrightarrow> y \<le> y'"
      by (simp_all add: crossing_year_Inr)
    from c have "y \<in> set (map fst annual)" unfolding candidate_def by force
    with Inr c l show ?thesis by blast
  qed
  with r show ?thesis by blast
qed

text \<open>
  The years of \<^const>\<open>unordered\<close> are not increasing.
\<close>

theorem crossing_no_validation_witness:
  "(0::int) < 1 \<and> \<not> sorted_wrt (<) (map fst unordered) \<and>
   \<not> too_short own_windows (nat 1) (length unordered) \<and>
   (\<exists>sm. rolling_mean own_windows unordered 1 = Inr sm \<and> map fst sm = map fst unordered) \<and>
   (\<exists>y\<in>set (map fst unordered). crossing_year own_windows unordered 1 1 = Inr y \<and>
      candidate own_windows unordered (nat 1) 1 y)"
proof -
  have h: "(0::int) < 1" by simp
  have u: "\<not> sorted_wrt (<) (map fst unordered)" by (simp add: unordered_def)
  have a: "\<not> too_short own_windows (nat 1) (length unordered)"
    by (simp add: too_short_def own_windows_def unordered_def)
  have c: "crossing_year own_windows unordered 1 1 = Inr 2000" by code_simp
  from crossing_no_validation[OF h, of own_windows unordered 1] a c
  have "(\<exists>sm. rolling_mean own_windows unordered 1 = Inr sm \<and> map fst sm = map fst unordered) \<and>
        (\<exists>y\<in>set (map fst unordered). crossing_year own_windows unordered 1 1 = Inr y \<and>
           candidate own_windows unordered (nat 1) 1 y)"
    by auto
  with h u a show ?thesis by blast
qed

text \<open>
  The series is not rejected: its crossing year for threshold 1 is 2000, the smallest of its
  years, found at the second position.
\<close>

theorem crossing_no_validation_counterexample:
  "\<not> sorted_wrt (<) (map fst unordered) \<and> crossing_year own_windows unordered 1 1 = Inr 2000 \<and>
   crossing_year moving_mean unordered 1 1 = Inr 2000"
proof -
  have "\<not> sorted_wrt (<) (map fst unordered)" by (simp add: unordered_def)
  moreover have "crossing_year own_windows unordered 1 1 = Inr 2000" by code_simp
  moreover have "crossing_year moving_mean unordered 1 1 = Inr 2000" by code_simp
  ultimately show ?thesis by simp
qed

text \<open>
  C10. On a fixed smoothed series the crossing year is monotone in the threshold: for
  \<open>t1 \<le> t2\<close>, a crossing year for \<open>t2\<close> comes with a crossing year for \<open>t1\<close> that is
  no later, and when \<open>t1\<close> is not reached, neither is \<open>t2\<close>.
\<close>

theorem crossing_monotone_in_threshold:
  assumes "t1 \<le> t2"
  shows "(\<forall>y2. first_crossing_year smoothed t2 = Inr y2 \<longrightarrow>
            (\<exists>y1. first_crossing_year smoothed t1 = Inr y1 \<and> y1 \<le> y2)) \<and>
         (\<forall>e. first_crossing_year smoothed t1 = Inl e \<longrightarrow> first_crossing_year smoothed t2 = Inl e)"
proof -
  have sub: "set (where_drop smoothed t2) \<subseteq> set (where_drop smoothed t1)"
    using assms unfolding set_where_drop by fastforce
  have a: "\<exists>y1. first_crossing_year smoothed t1 = Inr y1 \<and> y1 \<le> y2"
    if "first_crossing_year smoothed t2 = Inr y2" for y2
  proof -
    from that have ne: "where_drop smoothed t2 \<noteq> []" and y2: "y2 = Min (set (where_drop smoothed t2))"
      by (simp_all add: first_crossing_year_def year_min_Inr)
    from ne sub have ne1: "where_drop smoothed t1 \<noteq> []" by auto
    have "Min (set (where_drop smoothed t1)) \<le> y2" unfolding y2
      using sub ne by (intro Min_antimono) simp_all
    with ne1 show ?thesis by (simp add: first_crossing_year_def year_min_Inr)
  qed
  have b: "first_crossing_year smoothed t2 = Inl e" if "first_crossing_year smoothed t1 = Inl e" for e
  proof -
    from that have "where_drop smoothed t1 = []" "e = EmptyReduction"
      by (simp_all add: first_crossing_year_def year_min_Inl)
    with sub show ?thesis by (simp add: first_crossing_year_def year_min_Inl)
  qed
  from a b show ?thesis by blast
qed

text \<open>
  Thresholds 1 and 2 on a smoothed series of three years.
\<close>

theorem crossing_monotone_in_threshold_witness:
  "(1::real) \<le> 2 \<and>
   first_crossing_year [(2000, None), (2001, Some (3 / 2)), (2002, Some (5 / 2))] 2 = Inr 2002 \<and>
   (\<exists>y1. first_crossing_year [(2000, None), (2001, Some (3 / 2)), (2002, Some (5 / 2))] 1 = Inr y1 \<and> y1 \<le> 2002)"
proof -
  have h: "(1::real) \<le> 2" by simp
  have c: "first_crossing_year [(2000, None), (2001, Some (3 / 2)), (2002, Some (5 / 2))] 2 = Inr 2002"
    by code_simp
  from crossing_monotone_in_threshold[OF h, of "[(2000, None), (2001, Some (3 / 2)), (2002, Some (5 / 2))]"] c h
  show ?thesis by blast
qed

end
